theory Spec2Isabelle
  imports
    Complex_Main
    "HOL-Library.Sublist"
    "HOL-Library.Multiset"
    "HOL-Library.Char_ord"
    "HOL-Library.List_Lexorder"
begin

section \<open>Weather similarity search and asset risk prediction (knn\_analyzer.py)\<close>

text \<open>
  The embedding follows \<^verbatim>\<open>src/weather_impact_analysis/knn_analyzer.py\<close>.
  A pandas DataFrame is the list of its rows, each row a record of the columns the code
  reads. A Python exception is a value of \<open>py_error\<close>, returned as \<open>Inl\<close>.

  Numbers: a value read from a table is a finite number, modelled as a \<open>real\<close> (so the
  rounding error of IEEE doubles is not modelled). A value computed by pandas or numpy may be
  NaN: it has type \<open>float64\<close>, where \<open>None\<close> is NaN.
\<close>

subsection \<open>Python and pandas primitives\<close>

datatype py_error = KeyError | IndexError | TypeError

type_synonym float64 = "real option"

text \<open>A loop that builds a list and stops at the first exception raised.\<close>

fun collect :: "('e + 'a) list \<Rightarrow> 'e + 'a list" where
  "collect [] = Inr []"
| "collect (x # xs) =
     (case x of
        Inl e \<Rightarrow> Inl e
      | Inr v \<Rightarrow> (case collect xs of Inl e \<Rightarrow> Inl e | Inr vs \<Rightarrow> Inr (v # vs)))"

text \<open>\<^verbatim>\<open>d[key]\<close> on a dict: KeyError when the key is absent.\<close>

definition getitem :: "('k \<rightharpoonup> 'v) \<Rightarrow> 'k \<Rightarrow> py_error + 'v" where
  "getitem d key = (case d key of None \<Rightarrow> Inl KeyError | Some v \<Rightarrow> Inr v)"

text \<open>
  \<^verbatim>\<open>Series.mean()\<close>: the arithmetic mean, NaN on an empty column.
  \<^verbatim>\<open>Series.std()\<close>: pandas' default \<^verbatim>\<open>ddof=1\<close>, that is the square root of the sum
  of squared deviations divided by \<open>n - 1\<close>, NaN on a column of fewer than two values.
\<close>

definition series_mean :: "real list \<Rightarrow> float64" where
  "series_mean xs = (if xs = [] then None else Some (sum_list xs / real (length xs)))"

definition series_std :: "real list \<Rightarrow> float64" where
  "series_std xs =
     (if length xs < 2 then None
      else Some (sqrt (sum_list (map (\<lambda>x. (x - sum_list xs / real (length xs))\<^sup>2) xs)
                        / (real (length xs) - 1))))"

text \<open>\<^verbatim>\<open>a < b\<close> on floats: false as soon as one side is NaN.\<close>

definition float_lt :: "float64 \<Rightarrow> float64 \<Rightarrow> bool" where
  "float_lt a b = (case a of None \<Rightarrow> False | Some x \<Rightarrow> (case b of None \<Rightarrow> False | Some y \<Rightarrow> x < y))"

text \<open>
  \<^verbatim>\<open>list.sort(key=f)\<close>: a stable sort that compares keys with \<^verbatim>\<open><\<close> only. An element
  is placed behind exactly the elements whose key is not greater than its own, so equal keys
  keep the order of the input.
\<close>

fun insort_float_key :: "('a \<Rightarrow> float64) \<Rightarrow> 'a \<Rightarrow> 'a list \<Rightarrow> 'a list" where
  "insort_float_key f x [] = [x]"
| "insort_float_key f x (y # ys) =
     (if float_lt (f y) (f x) then y # insort_float_key f x ys else x # y # ys)"

definition list_sort_key :: "('a \<Rightarrow> float64) \<Rightarrow> 'a list \<Rightarrow> 'a list" where
  "list_sort_key f xs = foldr (insort_float_key f) xs []"

text \<open>\<^verbatim>\<open>xs[:k]\<close>: a negative \<open>k\<close> counts from the end of the list.\<close>

definition slice_to :: "int \<Rightarrow> 'a list \<Rightarrow> 'a list" where
  "slice_to k xs = (if 0 \<le> k then take (nat k) xs else take (nat (int (length xs) + k)) xs)"

subsection \<open>WeatherKNN\<close>

record weather_event =
  event_id :: int
  date :: string
  event_type :: string
  severity :: string
  temperature_c :: real
  wind_speed_kmh :: real
  precipitation_mm :: real
  humidity_percent :: real
  duration_hours :: real

record feature_stat =
  mean :: float64
  std :: float64

text \<open>
  The object's fields. \<open>knn_k\<close> is \<^verbatim>\<open>self.k\<close>; \<^verbatim>\<open>None\<close> in
  \<^verbatim>\<open>historical_events\<close> and \<^verbatim>\<open>normalized_features\<close> is \<open>None\<close> here.
\<close>

record weather_knn =
  knn_k :: int
  historical_events :: "weather_event list option"
  normalized_features :: "float64 list list option"
  feature_stats :: "string \<rightharpoonup> feature_stat"

definition init_knn :: "int \<Rightarrow> weather_knn" where
  "init_knn k = \<lparr>knn_k = k, historical_events = None, normalized_features = None,
                 feature_stats = Map.empty\<rparr>"

text \<open>\<^verbatim>\<open>self.feature_columns\<close>, each name with the column it selects in the event table.\<close>

definition feature_columns :: "(string \<times> (weather_event \<Rightarrow> real)) list" where
  "feature_columns =
     [(''temperature_c'', temperature_c),
      (''wind_speed_kmh'', wind_speed_kmh),
      (''precipitation_mm'', precipitation_mm),
      (''humidity_percent'', humidity_percent),
      (''duration_hours'', duration_hours)]"

text \<open>
  One cell of the z-score normalisation: \<^verbatim>\<open>(x - mean) / std if std > 0 else 0\<close>.
  \<^verbatim>\<open>std > 0\<close> is false for a NaN \<open>std\<close>; a NaN \<open>mean\<close> makes the quotient NaN.
\<close>

definition normalize_value :: "feature_stat \<Rightarrow> real \<Rightarrow> float64" where
  "normalize_value st x =
     (if float_lt (Some 0) (std st)
      then (case mean st of None \<Rightarrow> None | Some m \<Rightarrow> Some ((x - m) / the (std st)))
      else Some 0)"

text \<open>The statistics of every feature column, in column order: \<^verbatim>\<open>self.feature_stats[col]\<close>.\<close>

definition column_stats :: "weather_knn \<Rightarrow> py_error + feature_stat list" where
  "column_stats self = collect (map (\<lambda>(col, sel). getitem (feature_stats self) col) feature_columns)"

text \<open>One row of the normalised matrix: the cell of every feature column, in column order.\<close>

definition normalize_row :: "feature_stat list \<Rightarrow> weather_event \<Rightarrow> float64 list" where
  "normalize_row sts row = map2 (\<lambda>st (col, sel). normalize_value st (sel row)) sts feature_columns"

definition normalize_features :: "weather_knn \<Rightarrow> weather_event list \<Rightarrow> py_error + float64 list list" where
  "normalize_features self features_df =
     (case column_stats self of
        Inl e \<Rightarrow> Inl e
      | Inr sts \<Rightarrow> Inr (map (normalize_row sts) features_df))"

definition load_historical_data :: "weather_knn \<Rightarrow> weather_event list \<Rightarrow> py_error + weather_knn" where
  "load_historical_data self events_df =
     (let stats = fold (\<lambda>(col, sel) fs.
                          fs(col \<mapsto> \<lparr>mean = series_mean (map sel events_df),
                                     std = series_std (map sel events_df)\<rparr>))
                       feature_columns (feature_stats self);
          self1 = self\<lparr>historical_events := Some events_df, feature_stats := stats\<rparr>
      in case normalize_features self1 events_df of
           Inl e \<Rightarrow> Inl e
         | Inr nf \<Rightarrow> Inr (self1\<lparr>normalized_features := Some nf\<rparr>))"

text \<open>\<^verbatim>\<open>np.sqrt(np.sum((point1 - point2) ** 2))\<close>: NaN as soon as one coordinate is NaN.\<close>

definition float_sq_diff :: "float64 \<Rightarrow> float64 \<Rightarrow> float64" where
  "float_sq_diff a b =
     (case a of None \<Rightarrow> None | Some x \<Rightarrow> (case b of None \<Rightarrow> None | Some y \<Rightarrow> Some ((x - y)\<^sup>2)))"

definition euclidean_distance :: "float64 list \<Rightarrow> float64 list \<Rightarrow> float64" where
  "euclidean_distance point1 point2 =
     map_option (\<lambda>sq. sqrt (sum_list sq)) (those (map2 float_sq_diff point1 point2))"

text \<open>
  The first half of \<^verbatim>\<open>find_similar_events\<close>: the query's features are read from the
  dict (KeyError when one is missing) and normalised with the historical statistics.
\<close>

definition normalize_current :: "weather_knn \<Rightarrow> (string \<rightharpoonup> real) \<Rightarrow> py_error + float64 list" where
  "normalize_current self current_event =
     (case collect (map (\<lambda>(col, sel). getitem current_event col) feature_columns) of
        Inl e \<Rightarrow> Inl e
      | Inr current_features \<Rightarrow>
          (case column_stats self of
             Inl e \<Rightarrow> Inl e
           | Inr sts \<Rightarrow> Inr (map2 normalize_value sts current_features)))"

definition find_similar_events ::
  "weather_knn \<Rightarrow> (string \<rightharpoonup> real) \<Rightarrow> py_error + (int \<times> float64) list" where
  "find_similar_events self current_event =
     (case normalize_current self current_event of
        Inl e \<Rightarrow> Inl e
      | Inr normalized_current \<Rightarrow>
     (case normalized_features self of
        None \<Rightarrow> Inl TypeError
      | Some nf \<Rightarrow>
     (case collect (map (\<lambda>idx.
                      case historical_events self of
                        None \<Rightarrow> Inl TypeError
                      | Some evs \<Rightarrow>
                          if idx < length evs
                          then Inr (event_id (evs ! idx), euclidean_distance normalized_current (nf ! idx))
                          else Inl IndexError)
                    [0 ..< length nf]) of
        Inl e \<Rightarrow> Inl e
      | Inr distances \<Rightarrow> Inr (slice_to (knn_k self) (list_sort_key snd distances)))))"

text \<open>The first row whose id matches; \<^verbatim>\<open>.iloc[0]\<close> on an empty selection raises IndexError.\<close>

definition get_event_details :: "weather_knn \<Rightarrow> int \<Rightarrow> py_error + weather_event" where
  "get_event_details self eid =
     (case historical_events self of
        None \<Rightarrow> Inl TypeError
      | Some evs \<Rightarrow>
          (case filter (\<lambda>e. event_id e = eid) evs of
             [] \<Rightarrow> Inl IndexError
           | e # _ \<Rightarrow> Inr e))"

subsection \<open>Notions used to state the properties of WeatherKNN\<close>

text \<open>The statistics \<^verbatim>\<open>load_historical_data\<close> stores for one column of the event table.\<close>

definition stat_of :: "(weather_event \<Rightarrow> real) \<Rightarrow> weather_event list \<Rightarrow> feature_stat" where
  "stat_of sel events_df = \<lparr>mean = series_mean (map sel events_df), std = series_std (map sel events_df)\<rparr>"

definition loaded_stats :: "weather_event list \<Rightarrow> feature_stat list" where
  "loaded_stats events_df = map (\<lambda>(col, sel). stat_of sel events_df) feature_columns"

text \<open>A query event that has a value under each of the five feature names.\<close>

definition supplies_all_features :: "(string \<rightharpoonup> real) \<Rightarrow> bool" where
  "supplies_all_features current_event =
     list_all (\<lambda>(col, sel). current_event col \<noteq> None) feature_columns"

text \<open>
  The two standard deviations of a column, as the specification words them: the population
  one divides the sum of squared deviations by \<open>n\<close>, the sample one by \<open>n - 1\<close>.
\<close>

definition population_std :: "real list \<Rightarrow> real" where
  "population_std xs =
     sqrt (sum_list (map (\<lambda>x. (x - sum_list xs / real (length xs))\<^sup>2) xs) / real (length xs))"

definition sample_std :: "real list \<Rightarrow> real" where
  "sample_std xs =
     sqrt (sum_list (map (\<lambda>x. (x - sum_list xs / real (length xs))\<^sup>2) xs) / (real (length xs) - 1))"

text \<open>The value of \<^verbatim>\<open>self.feature_stats[col]['std']\<close> once the events are loaded.\<close>

definition loaded_std :: "weather_knn \<Rightarrow> weather_event list \<Rightarrow> string \<Rightarrow> py_error + float64" where
  "loaded_std self events_df col =
     (case load_historical_data self events_df of
        Inl e \<Rightarrow> Inl e
      | Inr st \<Rightarrow> (case getitem (feature_stats st) col of Inl e \<Rightarrow> Inl e | Inr fs \<Rightarrow> Inr (std fs)))"

text \<open>The two historical events and the query of the specification's end-to-end scenario.\<close>

definition spec_events :: "weather_event list" where
  "spec_events =
     [\<lparr>event_id = 1, date = ''2020-01-01'', event_type = ''Storm'', severity = ''High'',
       temperature_c = 10, wind_speed_kmh = 150, precipitation_mm = 5, humidity_percent = 20,
       duration_hours = 3\<rparr>,
      \<lparr>event_id = 2, date = ''2021-06-01'', event_type = ''Heat'', severity = ''Low'',
       temperature_c = 25, wind_speed_kmh = 20, precipitation_mm = 0, humidity_percent = 60,
       duration_hours = 1\<rparr>]"

definition spec_query :: "string \<rightharpoonup> real" where
  "spec_query = [''temperature_c'' \<mapsto> 11, ''wind_speed_kmh'' \<mapsto> 145, ''precipitation_mm'' \<mapsto> 4,
                 ''humidity_percent'' \<mapsto> 22, ''duration_hours'' \<mapsto> 3]"


subsection \<open>More pandas and Python primitives\<close>

text \<open>
  \<^verbatim>\<open>df.groupby(col).size().to_dict()\<close>: one entry per distinct value of the column,
  in ascending order of the value, with the number of rows that have it. Rows whose value
  is null (\<open>None\<close>) are dropped, as pandas does by default.
\<close>

definition groupby_size :: "('r \<Rightarrow> 'k::linorder option) \<Rightarrow> 'r list \<Rightarrow> ('k \<times> nat) list" where
  "groupby_size key rows =
     (let ks = List.map_filter key rows
      in map (\<lambda>k. (k, count_list ks k)) (sort (remdups ks)))"

text \<open>\<^verbatim>\<open>df[col].nunique()\<close>: the number of distinct values that are not null.\<close>

definition nunique :: "('r \<Rightarrow> 'k option) \<Rightarrow> 'r list \<Rightarrow> nat" where
  "nunique key rows = length (remdups (List.map_filter key rows))"

text \<open>
  \<^verbatim>\<open>round(x, n)\<close>: the nearest multiple of \<open>10\<^sup>-\<^sup>n\<close>, a tie going to the even one.
\<close>

definition round_half_even :: "real \<Rightarrow> int" where
  "round_half_even x =
     (if x - of_int \<lfloor>x\<rfloor> < 1 / 2 then \<lfloor>x\<rfloor>
      else if 1 / 2 < x - of_int \<lfloor>x\<rfloor> then \<lfloor>x\<rfloor> + 1
      else if even \<lfloor>x\<rfloor> then \<lfloor>x\<rfloor> else \<lfloor>x\<rfloor> + 1)"

definition py_round :: "real \<Rightarrow> nat \<Rightarrow> real" where
  "py_round x n = of_int (round_half_even (x * 10 ^ n)) / 10 ^ n"

text \<open>
  A point in time is its number of microseconds since the epoch, the resolution of Python's
  \<^verbatim>\<open>datetime\<close>. \<^verbatim>\<open>(a - b).days\<close> is the number of whole days of the difference,
  rounded down.
\<close>

type_synonym datetime = int

definition timedelta_days :: "datetime \<Rightarrow> datetime \<Rightarrow> int" where
  "timedelta_days a b = (a - b) div 86400000000"

subsection \<open>AssetImpactAnalyzer\<close>

text \<open>
  The asset registry and the incident log. \<open>installation_date\<close> is the date that
  \<^verbatim>\<open>pd.to_datetime\<close> reads from the cell; the incident's column \<^verbatim>\<open>event_id\<close> is
  \<open>incident_event_id\<close> here, the name being taken by the event table.
\<close>

record asset =
  code :: string
  name :: string
  type :: string
  category :: string
  criticality :: string
  condition_score :: real
  installation_date :: datetime

record incident =
  incident_event_id :: int
  asset_code :: string
  damage_severity :: string
  repair_cost_usd :: real
  downtime_hours :: real

record asset_impact_analyzer =
  assets :: "asset list"
  incidents :: "incident list"

text \<open>
  A row of the joined table: the incident's columns and the asset's columns, the latter null
  (\<open>None\<close>) when no asset matched.
\<close>

type_synonym affected_row = "incident \<times> asset option"

text \<open>
  \<^verbatim>\<open>left.merge(right, left_on='asset_code', right_on='code', how='left')\<close>: the left
  rows in their order, each once per matching right row, or once with null right columns
  when none matches.
\<close>

definition merge_left :: "incident list \<Rightarrow> asset list \<Rightarrow> affected_row list" where
  "merge_left left right =
     concat (map (\<lambda>i. case filter (\<lambda>a. code a = asset_code i) right of
                          [] \<Rightarrow> [(i, None)]
                        | m # ms \<Rightarrow> map (\<lambda>a. (i, Some a)) (m # ms))
                 left)"

definition get_affected_assets :: "asset_impact_analyzer \<Rightarrow> int list \<Rightarrow> affected_row list" where
  "get_affected_assets self event_ids =
     (let affected_incidents =
            filter (\<lambda>i. incident_event_id i \<in> set event_ids) (incidents self)
      in merge_left affected_incidents (assets self))"

text \<open>
  An entry of \<^verbatim>\<open>high_risk_assets\<close> and the dict that \<^verbatim>\<open>analyze_risk_patterns\<close>
  returns. The keys \<^verbatim>\<open>code\<close>, \<^verbatim>\<open>name\<close>, \<^verbatim>\<open>type\<close> and \<^verbatim>\<open>criticality\<close> of an
  entry carry the prefix \<open>hr_\<close>. A dict of counts is the list of its items in insertion
  order. The two totals are absent (\<open>None\<close>) from the dict of the empty case.
\<close>

record high_risk_asset =
  hr_code :: string
  hr_name :: string
  hr_type :: string
  incident_count :: nat
  hr_criticality :: string

record risk_analysis =
  total_incidents :: nat
  unique_assets :: nat
  by_asset_type :: "(string \<times> nat) list"
  by_criticality :: "(string \<times> nat) list"
  by_damage_severity :: "(string \<times> nat) list"
  high_risk_assets :: "high_risk_asset list"
  total_estimated_cost :: "real option"
  total_downtime_hours :: "real option"

text \<open>The incident count of every asset code of the joined table, in ascending code order.\<close>

definition asset_frequency :: "affected_row list \<Rightarrow> (string \<times> nat) list" where
  "asset_frequency affected_assets = groupby_size (\<lambda>r. map_option code (snd r)) affected_assets"

text \<open>
  \<^verbatim>\<open>self.assets[self.assets['code'] == asset_code].iloc[0]\<close> and the entry built from it;
  IndexError when the registry has no such code.
\<close>

definition high_risk_entry :: "asset_impact_analyzer \<Rightarrow> string \<times> nat \<Rightarrow> py_error + high_risk_asset" where
  "high_risk_entry self item =
     (case filter (\<lambda>a. code a = fst item) (assets self) of
        [] \<Rightarrow> Inl IndexError
      | asset_info # _ \<Rightarrow>
          Inr \<lparr>hr_code = fst item, hr_name = name asset_info, hr_type = type asset_info,
               incident_count = snd item, hr_criticality = criticality asset_info\<rparr>)"

text \<open>
  \<^verbatim>\<open>analyze_risk_patterns\<close>. The first argument stands for
  \<^verbatim>\<open>Series.sort_values(ascending=False)\<close>: the source calls it with pandas' default
  \<^verbatim>\<open>kind='quicksort'\<close>, which pandas documents as not stable, so the source does not fix
  the order among equal counts. The routine is a parameter, and \<open>sorts_descending\<close> below
  is what pandas promises of it.
\<close>

definition analyze_risk_patterns ::
  "((string \<times> nat) list \<Rightarrow> (string \<times> nat) list) \<Rightarrow> asset_impact_analyzer \<Rightarrow> affected_row list
     \<Rightarrow> py_error + risk_analysis" where
  "analyze_risk_patterns sort_values_desc self affected_assets =
     (if length affected_assets = 0
      then Inr \<lparr>total_incidents = 0, unique_assets = 0, by_asset_type = [], by_criticality = [],
                by_damage_severity = [], high_risk_assets = [],
                total_estimated_cost = None, total_downtime_hours = None\<rparr>
      else
        (let by_asset_type1 = groupby_size (\<lambda>r. map_option type (snd r)) affected_assets;
             by_criticality1 = groupby_size (\<lambda>r. map_option criticality (snd r)) affected_assets;
             by_severity = groupby_size (\<lambda>r. Some (damage_severity (fst r))) affected_assets;
             high_risk = take 10 (sort_values_desc (asset_frequency affected_assets))
         in case collect (map (high_risk_entry self) high_risk) of
              Inl e \<Rightarrow> Inl e
            | Inr high_risk_list \<Rightarrow>
                Inr \<lparr>total_incidents = length affected_assets,
                     unique_assets = nunique (\<lambda>r. map_option code (snd r)) affected_assets,
                     by_asset_type = by_asset_type1,
                     by_criticality = by_criticality1,
                     by_damage_severity = by_severity,
                     high_risk_assets = high_risk_list,
                     total_estimated_cost =
                       Some (sum_list (map (\<lambda>r. repair_cost_usd (fst r)) affected_assets)),
                     total_downtime_hours =
                       Some (sum_list (map (\<lambda>r. downtime_hours (fst r)) affected_assets))\<rparr>))"

definition sorts_descending :: "(('k \<times> nat) list \<Rightarrow> ('k \<times> nat) list) \<Rightarrow> bool" where
  "sorts_descending sort_values_desc =
     (\<forall>xs. mset (sort_values_desc xs) = mset xs \<and>
           sorted_wrt (\<lambda>m n. n \<le> m) (map snd (sort_values_desc xs)))"

text \<open>
  An entry of the list that \<^verbatim>\<open>predict_at_risk_assets\<close> returns; the keys that an asset
  has too carry the prefix \<open>rr_\<close>.
\<close>

record risk_result =
  rr_code :: string
  rr_name :: string
  rr_type :: string
  rr_category :: string
  risk_score :: real
  rr_criticality :: string
  rr_condition_score :: real
  age_years :: real
  rr_installation_date :: datetime
  historical_incident_count :: nat

text \<open>The dict of weights with its default: \<^verbatim>\<open>{...}.get(asset['criticality'], 1.0)\<close>.\<close>

definition criticality_weight :: "string \<Rightarrow> real" where
  "criticality_weight c =
     (if c = ''Critical'' then 1.5
      else if c = ''High'' then 1.2
      else if c = ''Medium'' then 1.0
      else if c = ''Low'' then 0.8
      else 1.0)"

text \<open>
  The body of the inner loop, \<open>current_date\<close> being what \<^verbatim>\<open>datetime.now()\<close> returns.
  The locals \<^verbatim>\<open>age_years\<close>, \<^verbatim>\<open>criticality_weight\<close> and \<^verbatim>\<open>risk_score\<close> are
  \<open>age\<close>, \<open>weight\<close> and \<open>score\<close> here.
\<close>

definition score_asset :: "datetime \<Rightarrow> nat \<Rightarrow> asset \<Rightarrow> risk_result" where
  "score_asset current_date incident_count1 asset =
     (let age = real_of_int (timedelta_days current_date (installation_date asset)) / 365.25;
          weight = criticality_weight (criticality asset);
          condition_risk = (10 - condition_score asset) / 10;
          age_risk = min (age / 30) 1.0;
          score = real incident_count1 * 0.4 + condition_risk * 30 * 0.3
                    + age_risk * 30 * 0.2 + weight * 10 * 0.1
      in \<lparr>rr_code = code asset, rr_name = name asset, rr_type = type asset,
          rr_category = category asset, risk_score = py_round score 2,
          rr_criticality = criticality asset, rr_condition_score = condition_score asset,
          age_years = py_round age 1, rr_installation_date = installation_date asset,
          historical_incident_count = incident_count1\<rparr>)"

text \<open>
  The pairs (incident count, asset) that the two nested loops visit, in the order they visit
  them: the items of \<^verbatim>\<open>by_asset_type\<close>, and for each the assets of that type.
\<close>

definition scored_assets :: "asset_impact_analyzer \<Rightarrow> risk_analysis \<Rightarrow> (nat \<times> asset) list" where
  "scored_assets self risk =
     concat (map (\<lambda>(asset_type, incident_count1).
                    map (\<lambda>asset. (incident_count1, asset))
                        (filter (\<lambda>a. type a = asset_type) (assets self)))
                 (by_asset_type risk))"

text \<open>
  \<^verbatim>\<open>predict_at_risk_assets\<close>. The system clock is read once for every scored asset:
  \<open>clock n\<close> is the reading at the \<open>n\<close>-th one. \<^verbatim>\<open>sort(key=..., reverse=True)\<close> is
  stable: it is the stable sort on the negated score. The analysis always has the key
  \<^verbatim>\<open>by_asset_type\<close> here, so the default of \<^verbatim>\<open>.get\<close> is not reached; the empty dict
  is the empty list.
\<close>

definition predict_at_risk_assets ::
  "(nat \<Rightarrow> datetime) \<Rightarrow> asset_impact_analyzer \<Rightarrow> risk_analysis \<Rightarrow> risk_result list" where
  "predict_at_risk_assets clock self risk =
     (let at_risk = map (\<lambda>(n, (incident_count1, asset)). score_asset (clock n) incident_count1 asset)
                        (enumerate 0 (scored_assets self risk))
      in sort_key (\<lambda>r. - risk_score r) at_risk)"

subsection \<open>Notions used to state the properties of AssetImpactAnalyzer\<close>

text \<open>
  The weight of a criticality label and the risk score, as the specification words them.
\<close>

definition spec_criticality_weight :: "string \<Rightarrow> real" where
  "spec_criticality_weight c =
     (case map_of [(''Critical'', 1.5), (''High'', 1.2), (''Medium'', 1.0), (''Low'', 0.8)] c of
        Some w \<Rightarrow> w
      | None \<Rightarrow> 1.0)"

definition spec_risk_score :: "real \<Rightarrow> real \<Rightarrow> real \<Rightarrow> real \<Rightarrow> real" where
  "spec_risk_score incidents_of_type condition age weight =
     incidents_of_type * 0.4 + ((10 - condition) / 10) * 30 * 0.3
       + min (age / 30) 1.0 * 30 * 0.2 + weight * 10 * 0.1"

text \<open>
  The specification's tie rule for the list of frequently affected assets: of two entries
  with the same count, the one with the smaller code comes first.
\<close>

definition ties_by_code_ascending :: "high_risk_asset list \<Rightarrow> bool" where
  "ties_by_code_ascending hs =
     sorted_wrt (\<lambda>g h. if incident_count g = incident_count h then hr_code g \<le> hr_code h else True) hs"

text \<open>
  Two routines that sort counts in descending order: a stable one, and one that leaves equal
  counts in the reverse of their input order.
\<close>

definition stable_descending_sort :: "(string \<times> nat) list \<Rightarrow> (string \<times> nat) list" where
  "stable_descending_sort xs = sort_key (\<lambda>p. - int (snd p)) xs"


text \<open>
  A clock that reads midnight \<open>d\<close> days after the epoch at every reading, and a clock an hour
  ahead of another.
\<close>

definition days_after_epoch :: "int \<Rightarrow> nat \<Rightarrow> datetime" where
  "days_after_epoch d n = d * 86400000000"

definition hour_later :: "(nat \<Rightarrow> datetime) \<Rightarrow> nat \<Rightarrow> datetime" where
  "hour_later clock n = clock n + 3600000000"

text \<open>
  The registry and the analysis of the specification's end-to-end scenario (the pole is
  installed at the epoch), with a second asset of a type that has no incident.
\<close>

definition spec_assets :: "asset list" where
  "spec_assets =
     [\<lparr>code = ''A1'', name = ''Pole 1'', type = ''Pole'', category = ''Electrical'',
       criticality = ''High'', condition_score = 3, installation_date = 0\<rparr>,
      \<lparr>code = ''B7'', name = ''Track 7'', type = ''Rail'', category = ''Track'',
       criticality = ''Low'', condition_score = 9, installation_date = 0\<rparr>]"

definition spec_analyzer :: asset_impact_analyzer where
  "spec_analyzer =
     \<lparr>assets = spec_assets,
      incidents = [\<lparr>incident_event_id = 1, asset_code = ''A1'', damage_severity = ''Severe'',
                   repair_cost_usd = 1000, downtime_hours = 4\<rparr>]\<rparr>"

definition spec_risk :: risk_analysis where
  "spec_risk =
     \<lparr>total_incidents = 1, unique_assets = 1, by_asset_type = [(''Pole'', 1)],
      by_criticality = [(''High'', 1)], by_damage_severity = [(''Severe'', 1)],
      high_risk_assets = [\<lparr>hr_code = ''A1'', hr_name = ''Pole 1'', hr_type = ''Pole'',
                            incident_count = 1, hr_criticality = ''High''\<rparr>],
      total_estimated_cost = Some 1000, total_downtime_hours = Some 4\<rparr>"


text \<open>The scenario's registry with a second incident, on a code that the registry lacks.\<close>

definition orphan_incident :: incident where
  "orphan_incident =
     \<lparr>incident_event_id = 1, asset_code = ''ZZ9'', damage_severity = ''Minor'',
      repair_cost_usd = 250, downtime_hours = 2\<rparr>"

definition orphan_analyzer :: asset_impact_analyzer where
  "orphan_analyzer =
     \<lparr>assets = spec_assets,
      incidents = [\<lparr>incident_event_id = 1, asset_code = ''A1'', damage_severity = ''Severe'',
                   repair_cost_usd = 1000, downtime_hours = 4\<rparr>,
                  orphan_incident]\<rparr>"

section \<open>Properties of WeatherKNN\<close>

subsection \<open>Loading always succeeds and stores the column statistics\<close>

lemma collect_map_Inr: "collect (map (\<lambda>x. Inr (f x)) xs) = Inr (map f xs)"
  by (induction xs) auto

lemma column_stats_loaded:
  "column_stats (self\<lparr>historical_events := h,
       feature_stats := fold (\<lambda>(col, sel) fs.
                          fs(col \<mapsto> \<lparr>mean = series_mean (map sel events_df),
                                     std = series_std (map sel events_df)\<rparr>))
                       feature_columns fs0\<rparr>) = Inr (loaded_stats events_df)"
  by (simp add: column_stats_def feature_columns_def getitem_def loaded_stats_def stat_of_def)

lemma load_historical_data_Inr:
  "load_historical_data self events_df =
     Inr (self\<lparr>historical_events := Some events_df,
              feature_stats := fold (\<lambda>(col, sel) fs.
                          fs(col \<mapsto> \<lparr>mean = series_mean (map sel events_df),
                                     std = series_std (map sel events_df)\<rparr>))
                       feature_columns (feature_stats self),
              normalized_features := Some (map (normalize_row (loaded_stats events_df)) events_df)\<rparr>)"
  unfolding load_historical_data_def Let_def normalize_features_def column_stats_loaded
  by simp

lemma loaded_fields:
  assumes "load_historical_data self events_df = Inr st"
  shows "historical_events st = Some events_df"
    and "normalized_features st = Some (map (normalize_row (loaded_stats events_df)) events_df)"
    and "column_stats st = Inr (loaded_stats events_df)"
    and "knn_k st = knn_k self"
  using assms unfolding load_historical_data_Inr
  by (auto simp: column_stats_def feature_columns_def getitem_def loaded_stats_def stat_of_def)



subsection \<open>Sorting and distances\<close>






lemma normalize_current_loaded:
  assumes "load_historical_data self events_df = Inr st" "supplies_all_features q"
  shows "normalize_current st q =
           Inr (map2 normalize_value (loaded_stats events_df) (map (\<lambda>(col, sel). the (q col)) feature_columns))"
  using assms(2) unfolding normalize_current_def loaded_fields(3)[OF assms(1)]
  by (auto simp: supplies_all_features_def feature_columns_def getitem_def)


lemma map_index_rows:
  "map (\<lambda>idx. g (evs ! idx) (map h evs ! idx)) [0 ..< length evs] = map (\<lambda>e. g e (h e)) evs"
  by (rule nth_equalityI) auto

lemma find_similar_events_loaded:
  assumes "load_historical_data self events_df = Inr st" "supplies_all_features q"
  shows "find_similar_events st q =
           Inr (slice_to (knn_k self)
                  (list_sort_key snd
                     (map (\<lambda>e. (event_id e,
                                 euclidean_distance
                                   (map2 normalize_value (loaded_stats events_df) (map (\<lambda>(col, sel). the (q col)) feature_columns))
                                   (normalize_row (loaded_stats events_df) e)))
                          events_df)))"
proof -
  let ?nc = "map2 normalize_value (loaded_stats events_df) (map (\<lambda>(col, sel). the (q col)) feature_columns)"
  let ?h = "normalize_row (loaded_stats events_df)"
  have "collect (map (\<lambda>idx. if idx < length events_df
              then Inr (event_id (events_df ! idx), euclidean_distance ?nc (map ?h events_df ! idx))
              else Inl IndexError) [0 ..< length events_df])
        = collect (map (\<lambda>idx. Inr (event_id (events_df ! idx), euclidean_distance ?nc (map ?h events_df ! idx)))
                    [0 ..< length events_df])"
    by (rule arg_cong[where f = collect]) simp
  also have "\<dots> = Inr (map (\<lambda>idx. (event_id (events_df ! idx), euclidean_distance ?nc (map ?h events_df ! idx)))
                    [0 ..< length events_df])"
    by (rule collect_map_Inr)
  also have "\<dots> = Inr (map (\<lambda>e. (event_id e, euclidean_distance ?nc (?h e))) events_df)"
    using map_index_rows[of "\<lambda>e v. (event_id e, euclidean_distance ?nc v)" events_df ?h] by simp
  finally show ?thesis
    unfolding find_similar_events_def normalize_current_loaded[OF assms]
      loaded_fields[OF assms(1)]
    by simp
qed






lemma loaded_stats_nth:
  "i < length feature_columns \<Longrightarrow> feature_columns ! i = (col, sel) \<Longrightarrow> loaded_stats events_df ! i = stat_of sel events_df"
  by (simp add: loaded_stats_def)

lemma length_loaded_stats: "length (loaded_stats events_df) = length feature_columns"
  by (simp add: loaded_stats_def)

lemma loaded_getitem:
  assumes "load_historical_data self events_df = Inr st" "i < length feature_columns" "feature_columns ! i = (col, sel)"
  shows "getitem (feature_stats st) col = Inr (stat_of sel events_df)"
proof -
  have "i = 0 \<or> i = 1 \<or> i = 2 \<or> i = 3 \<or> i = 4"
    using assms(2) by (auto simp: feature_columns_def)
  then show ?thesis
    using assms(1,3) unfolding load_historical_data_Inr
    by (auto simp: feature_columns_def getitem_def stat_of_def)
qed

lemma set_insort_float_key: "set (insort_float_key f x ys) = insert x (set ys)"
  by (induction ys) auto

lemma set_list_sort_key: "set (list_sort_key f xs) = set xs"
  by (induction xs) (auto simp: list_sort_key_def set_insort_float_key)

lemma set_slice_to: "set (slice_to k xs) \<subseteq> set xs"
  by (auto simp: slice_to_def dest: in_set_takeD)

lemma collect_Inr_set:
  "collect (map g is) = Inr ds \<Longrightarrow> d \<in> set ds \<Longrightarrow> \<exists>i\<in>set is. g i = Inr d"
  by (induction "is" arbitrary: ds) (auto split: sum.splits)

lemma find_similar_events_ids:
  assumes "historical_events st = Some events_df" "find_similar_events st q = Inr res" "p \<in> set res"
  shows "fst p \<in> event_id ` set events_df"
proof -
  from assms(2) obtain nc nf ds where
    c: "collect (map (\<lambda>idx. case historical_events st of
                        None \<Rightarrow> Inl TypeError
                      | Some evs \<Rightarrow>
                          if idx < length evs
                          then Inr (event_id (evs ! idx), euclidean_distance nc (nf ! idx))
                          else Inl IndexError) [0 ..< length nf]) = Inr ds"
    and r: "res = slice_to (knn_k st) (list_sort_key snd ds)"
    by (auto simp: find_similar_events_def split: sum.splits option.splits)
  from assms(3) r have "p \<in> set ds"
    using set_slice_to[of "knn_k st" "list_sort_key snd ds"] by (auto simp: set_list_sort_key)
  from collect_Inr_set[OF c this] obtain idx where
    "idx < length events_df" "p = (event_id (events_df ! idx), euclidean_distance nc (nf ! idx))"
    using assms(1) by (auto split: if_splits)
  then show ?thesis by auto
qed

lemma get_event_details_found:
  assumes "historical_events st = Some events_df" "eid \<in> event_id ` set events_df"
  shows "\<exists>e. get_event_details st eid = Inr e \<and> e \<in> set events_df \<and> event_id e = eid"
proof -
  from assms(2) have "filter (\<lambda>e. event_id e = eid) events_df \<noteq> []"
    by (auto simp: filter_empty_conv)
  then obtain e es where f: "filter (\<lambda>e. event_id e = eid) events_df = e # es"
    by (cases "filter (\<lambda>e. event_id e = eid) events_df") auto
  then have "e \<in> set (filter (\<lambda>e. event_id e = eid) events_df)" by simp
  then have "e \<in> set events_df" "event_id e = eid" by auto
  with f assms(1) show ?thesis by (simp add: get_event_details_def)
qed

lemma spec_query_ok: "supplies_all_features spec_query"
  by (simp add: supplies_all_features_def feature_columns_def spec_query_def)

lemma spec_stats: "loaded_stats spec_events = 
   [\<lparr>mean = Some (35/2), std = Some (sqrt (225/2))\<rparr>,
    \<lparr>mean = Some 85, std = Some (sqrt 8450)\<rparr>,
    \<lparr>mean = Some (5/2), std = Some (sqrt (25/2))\<rparr>,
    \<lparr>mean = Some 40, std = Some (sqrt 800)\<rparr>,
    \<lparr>mean = Some 2, std = Some (sqrt 2)\<rparr>]"
  by (simp add: loaded_stats_def feature_columns_def stat_of_def spec_events_def series_mean_def series_std_def power2_eq_square)

lemma spec_search:
  "load_historical_data (init_knn 1) spec_events = Inr st \<Longrightarrow>
   \<exists>d. find_similar_events st spec_query = Inr [(1, Some d)]"
  apply (simp add: find_similar_events_loaded[OF _ spec_query_ok] spec_stats)
  apply (simp add: spec_events_def feature_columns_def normalize_row_def normalize_value_def
      float_lt_def euclidean_distance_def float_sq_diff_def list_sort_key_def slice_to_def
      spec_query_def init_knn_def power_divide)
  done

lemma loaded_std_eq:
  assumes "i < length feature_columns" and "feature_columns ! i = (col, sel)"
  shows "loaded_std self events_df col = Inr (series_std (map sel events_df))"
proof -
  obtain st where load: "load_historical_data self events_df = Inr st"
    by (simp add: load_historical_data_Inr)
  show ?thesis
    unfolding loaded_std_def load using loaded_getitem[OF load assms]
    by (simp add: stat_of_def)
qed

subsection \<open>The similarity search\<close>



subsection \<open>Zero standard deviation\<close>



subsection \<open>Looking an event up\<close>

text \<open>
  Claim C7. On a loaded collection, looking up the id of an event of the collection returns a
  record of the collection with that id, the event itself when the ids are distinct; looking
  up an id that does not occur raises IndexError (the lookup fails, no default is returned);
  and the lookup of every id returned by the similarity search succeeds.
\<close>

theorem get_event_details_lookup:
  "\<exists>st. load_historical_data self events_df = Inr st \<and>
     (\<forall>e\<in>set events_df. \<exists>e'. get_event_details st (event_id e) = Inr e' \<and> e' \<in> set events_df \<and>
          event_id e' = event_id e \<and> (distinct (map event_id events_df) \<longrightarrow> e' = e)) \<and>
     (\<forall>eid. eid \<notin> event_id ` set events_df \<longrightarrow> get_event_details st eid = Inl IndexError) \<and>
     (\<forall>q res. find_similar_events st q = Inr res \<longrightarrow>
          (\<forall>p\<in>set res. \<exists>e. get_event_details st (fst p) = Inr e \<and> e \<in> set events_df \<and> event_id e = fst p))"
proof -
  obtain st where load: "load_historical_data self events_df = Inr st"
    by (simp add: load_historical_data_Inr)
  note h = loaded_fields(1)[OF load]
  have a: "\<exists>e'. get_event_details st (event_id e) = Inr e' \<and> e' \<in> set events_df \<and>
          event_id e' = event_id e \<and> (distinct (map event_id events_df) \<longrightarrow> e' = e)"
    if "e \<in> set events_df" for e
  proof -
    from get_event_details_found[OF h, of "event_id e"] that obtain e' where
      e': "get_event_details st (event_id e) = Inr e'" "e' \<in> set events_df" "event_id e' = event_id e"
      by blast
    have "e' = e" if "distinct (map event_id events_df)"
      using that e'(2,3) \<open>e \<in> set events_df\<close> by (meson distinct_map inj_onD)
    with e' show ?thesis by blast
  qed
  have b: "get_event_details st eid = Inl IndexError" if "eid \<notin> event_id ` set events_df" for eid
  proof -
    from that have "filter (\<lambda>e. event_id e = eid) events_df = []"
      by (auto simp: filter_empty_conv)
    then show ?thesis by (simp add: get_event_details_def h)
  qed
  have c: "\<exists>e. get_event_details st (fst p) = Inr e \<and> e \<in> set events_df \<and> event_id e = fst p"
    if "find_similar_events st q = Inr res" "p \<in> set res" for q res p
    using get_event_details_found[OF h find_similar_events_ids[OF h that]] .
  from load a b c show ?thesis by blast
qed

theorem get_event_details_lookup_witness:
  "\<exists>st. load_historical_data (init_knn 1) spec_events = Inr st \<and>
     get_event_details st 2 = Inr (spec_events ! 1) \<and>
     get_event_details st 7 = Inl IndexError \<and>
     (\<exists>d e. find_similar_events st spec_query = Inr [(1, Some d)] \<and>
        get_event_details st 1 = Inr e \<and> event_id e = 1)"
proof -
  from get_event_details_lookup[of "init_knn 1" spec_events] obtain st where
    load: "load_historical_data (init_knn 1) spec_events = Inr st" and
    a: "\<forall>e\<in>set spec_events. \<exists>e'. get_event_details st (event_id e) = Inr e' \<and>
          e' \<in> set spec_events \<and> event_id e' = event_id e \<and>
          (distinct (map event_id spec_events) \<longrightarrow> e' = e)" and
    b: "\<forall>eid. eid \<notin> event_id ` set spec_events \<longrightarrow> get_event_details st eid = Inl IndexError" and
    c: "\<forall>q res. find_similar_events st q = Inr res \<longrightarrow>
          (\<forall>p\<in>set res. \<exists>e. get_event_details st (fst p) = Inr e \<and> e \<in> set spec_events \<and>
             event_id e = fst p)"
    by blast
  have "spec_events ! 1 \<in> set spec_events" "event_id (spec_events ! 1) = 2"
    "distinct (map event_id spec_events)"
    by (simp_all add: spec_events_def)
  with a have "get_event_details st 2 = Inr (spec_events ! 1)" by force
  moreover have "7 \<notin> event_id ` set spec_events" by (simp add: spec_events_def)
  with b have "get_event_details st 7 = Inl IndexError" by blast
  moreover from spec_search[OF load] obtain d where
    d: "find_similar_events st spec_query = Inr [(1, Some d)]" by blast
  with c have "\<exists>e. get_event_details st 1 = Inr e \<and> event_id e = 1" by fastforce
  ultimately show ?thesis using load d by blast
qed

subsection \<open>The standard deviation is the sample one\<close>

text \<open>
  Claim C9, as the code has it. The standard deviation stored at load time for a feature
  column is NaN when fewer than two events are loaded and otherwise the sample standard
  deviation of the column (divisor \<open>n - 1\<close>); with two events or more, every normalised cell
  of that column is the deviation from the mean divided by that sample standard deviation
  when it is positive, and 0 otherwise.
\<close>

theorem loaded_std_is_sample_std:
  assumes "i < length feature_columns"
      and "feature_columns ! i = (col, sel)"
  shows "loaded_std self events_df col =
           Inr (if length events_df < 2 then None else Some (sample_std (map sel events_df)))
         \<and> (\<exists>st sts. load_historical_data self events_df = Inr st \<and> column_stats st = Inr sts \<and>
              (2 \<le> length events_df \<longrightarrow>
                 (\<forall>row. normalize_row sts row ! i =
                    (if 0 < sample_std (map sel events_df)
                     then Some ((sel row - sum_list (map sel events_df) / real (length events_df))
                                  / sample_std (map sel events_df))
                     else Some 0))))"
proof -
  obtain st where load: "load_historical_data self events_df = Inr st"
    by (simp add: load_historical_data_Inr)
  have "normalize_row (loaded_stats events_df) row ! i =
          (if 0 < sample_std (map sel events_df)
           then Some ((sel row - sum_list (map sel events_df) / real (length events_df))
                        / sample_std (map sel events_df))
           else Some 0)" if "2 \<le> length events_df" for row
    using that assms
    by (auto simp: normalize_row_def length_loaded_stats loaded_stats_nth stat_of_def
        normalize_value_def float_lt_def series_std_def series_mean_def sample_std_def)
  then show ?thesis
    using loaded_std_eq[OF assms, of self events_df] load loaded_fields(3)[OF load]
    by (simp add: series_std_def sample_std_def)
qed

theorem loaded_std_is_sample_std_witness:
  "0 < length feature_columns \<and> feature_columns ! 0 = (''temperature_c'', temperature_c) \<and>
   loaded_std (init_knn 5) spec_events ''temperature_c'' = Inr (Some (sqrt (225 / 2))) \<and>
   population_std (map temperature_c spec_events) = sqrt (225 / 4)"
proof -
  have a: "0 < length feature_columns"
    and b: "feature_columns ! 0 = (''temperature_c'', temperature_c)"
    by (simp_all add: feature_columns_def)
  have "sample_std (map temperature_c spec_events) = sqrt (225 / 2)"
    by (simp add: sample_std_def spec_events_def power2_eq_square)
  moreover have "population_std (map temperature_c spec_events) = sqrt (225 / 4)"
    by (simp add: population_std_def spec_events_def power2_eq_square)
  moreover have "\<not> length spec_events < 2"
    by (simp add: spec_events_def)
  ultimately show ?thesis
    using loaded_std_is_sample_std[OF a b, of "init_knn 5" spec_events] a b by simp
qed

text \<open>
  Claim C9 as stated fails: on the two events of the specification's scenario the stored
  standard deviation of the temperature column is not the population standard deviation.
\<close>

theorem population_std_counterexample:
  "loaded_std (init_knn 5) spec_events ''temperature_c''
     \<noteq> Inr (Some (population_std (map temperature_c spec_events)))"
proof -
  have p: "population_std (map temperature_c spec_events) = sqrt (225 / 4)"
    by (simp add: population_std_def spec_events_def power2_eq_square)
  have s: "series_std (map temperature_c spec_events) = Some (sqrt (225 / 2))"
    by (simp add: series_std_def spec_events_def power2_eq_square)
  have "sqrt (225 / 2) \<noteq> sqrt (225 / 4)"
    by simp
  then show ?thesis
    using loaded_std_eq[of 0 "''temperature_c''" temperature_c "init_knn 5" spec_events]
    unfolding p s by (simp add: feature_columns_def)
qed

section \<open>Properties of AssetImpactAnalyzer\<close>

subsection \<open>The join and the aggregation\<close>

lemma get_affected_assets_no_match:
  "set event_ids \<inter> incident_event_id ` set (incidents self) = {} \<Longrightarrow> get_affected_assets self event_ids = []"
proof -
  assume a: "set event_ids \<inter> incident_event_id ` set (incidents self) = {}"
  then have "filter (\<lambda>i. incident_event_id i \<in> set event_ids) (incidents self) = []"
    by (auto simp: filter_empty_conv)
  then show ?thesis by (simp add: get_affected_assets_def merge_left_def)
qed

lemma collect_list_all2:
  "collect (map g xs) = Inr ys \<Longrightarrow> list_all2 (\<lambda>x y. g x = Inr y) xs ys"
  by (induction xs arbitrary: ys) (auto split: sum.splits)

lemma collect_total:
  "\<forall>x\<in>set xs. \<exists>y. g x = Inr y \<Longrightarrow> \<exists>ys. collect (map g xs) = Inr ys"
  by (induction xs) auto

lemma high_risk_entry_fields:
  "high_risk_entry self item = Inr h \<Longrightarrow> hr_code h = fst item \<and> incident_count h = snd item"
  by (auto simp: high_risk_entry_def split: list.splits)

lemma high_risk_entries:
  assumes "collect (map (high_risk_entry self) items) = Inr hs"
  shows "map hr_code hs = map fst items" "map incident_count hs = map snd items"
proof -
  from collect_list_all2[OF assms] have "list_all2 (\<lambda>x y. hr_code y = fst x \<and> incident_count y = snd x) items hs"
    by (rule list_all2_mono) (simp add: high_risk_entry_fields)
  then show "map hr_code hs = map fst items" "map incident_count hs = map snd items"
    by (induction rule: list_all2_induct) auto
qed

lemma analyze_high_risk:
  assumes "analyze_risk_patterns srt self rows = Inr ra"
  shows "map hr_code (high_risk_assets ra) = map fst (take 10 (srt (asset_frequency rows))) \<and>
         map incident_count (high_risk_assets ra) = map snd (take 10 (srt (asset_frequency rows)))
         \<or> rows = [] \<and> high_risk_assets ra = []"
proof (cases "rows = []")
  case True
  with assms show ?thesis by (auto simp: analyze_risk_patterns_def)
next
  case False
  with assms obtain hs where
    c: "collect (map (high_risk_entry self) (take 10 (srt (asset_frequency rows)))) = Inr hs"
    and "high_risk_assets ra = hs"
    by (auto simp: analyze_risk_patterns_def Let_def split: sum.splits)
  with high_risk_entries[OF c] show ?thesis by simp
qed

lemma set_groupby_size:
  "set (groupby_size key rows) =
     (\<lambda>k. (k, count_list (List.map_filter key rows) k)) ` set (List.map_filter key rows)"
  by (simp add: groupby_size_def Let_def)

lemma distinct_groupby_size: "distinct (map fst (groupby_size key rows))"
  by (simp add: groupby_size_def Let_def comp_def)

lemma sorted_groupby_size: "sorted (map fst (groupby_size key rows))"
  by (simp add: groupby_size_def Let_def comp_def)

lemma set_map_filter_key:
  "set (List.map_filter key rows) = {k. \<exists>r\<in>set rows. key r = Some k}"
  by (induction rows) (auto simp: List.map_filter_def)

lemma count_list_map_filter:
  "count_list (List.map_filter key rows) k = length (filter (\<lambda>r. key r = Some k) rows)"
  by (induction rows) (auto simp: List.map_filter_def)

lemma sorts_descending_set: "sorts_descending srt \<Longrightarrow> set (srt xs) = set xs"
  unfolding sorts_descending_def by (metis set_mset_mset)

lemma sorts_descending_length: "sorts_descending srt \<Longrightarrow> length (srt xs) = length xs"
  unfolding sorts_descending_def by (metis size_mset)



lemma sorts_descending_stable_descending_sort: "sorts_descending stable_descending_sort"
proof -
  have "sorted_wrt (\<lambda>m n. n \<le> m) (map snd (sort_key (\<lambda>p. - int (snd p)) xs))" for xs :: "(string \<times> nat) list"
  proof -
    have "sorted (map (\<lambda>p. - int (snd p)) (sort_key (\<lambda>p. - int (snd p)) xs))"
      by (rule sorted_sort_key)
    then show ?thesis
      by (simp add: sorted_wrt_map sorted_map)
  qed
  then show ?thesis
    by (simp add: sorts_descending_def stable_descending_sort_def)
qed



lemma merge_left_rows:
  "merge_left left right =
     concat (map (\<lambda>i. if filter (\<lambda>a. code a = asset_code i) right = [] then [(i, None)]
                        else map (\<lambda>a. (i, Some a)) (filter (\<lambda>a. code a = asset_code i) right))
                 left)"
  unfolding merge_left_def
  by (rule arg_cong[where f = concat], rule map_cong[OF refl]) (simp split: list.splits)

lemma merge_left_None:
  "(i, None) \<in> set (merge_left left right) \<longleftrightarrow> i \<in> set left \<and> asset_code i \<notin> code ` set right"
proof
  assume "(i, None) \<in> set (merge_left left right)"
  then show "i \<in> set left \<and> asset_code i \<notin> code ` set right"
    unfolding merge_left_rows by (auto simp: filter_empty_conv split: if_splits)
next
  assume a: "i \<in> set left \<and> asset_code i \<notin> code ` set right"
  then have "\<forall>x\<in>set right. code x \<noteq> asset_code i"
    by (metis imageI)
  then have "filter (\<lambda>a. code a = asset_code i) right = []"
    by (simp add: filter_empty_conv)
  with a show "(i, None) \<in> set (merge_left left right)"
    unfolding merge_left_rows by (auto intro!: bexI[of _ i])
qed

lemma merge_left_Some:
  "(i, Some a) \<in> set (merge_left left right) \<Longrightarrow> a \<in> set right \<and> code a = asset_code i"
  unfolding merge_left_rows by (auto split: if_splits)

lemma map_filter_matched:
  "(\<And>r. snd r = None \<Longrightarrow> key r = None) \<Longrightarrow>
   List.map_filter key (filter (\<lambda>r. snd r \<noteq> None) rows) = List.map_filter key rows"
  by (induction rows) (auto simp: List.map_filter_def)

lemma groupby_size_matched:
  "groupby_size (\<lambda>r. map_option f (snd r)) (filter (\<lambda>r. snd r \<noteq> None) rows)
     = groupby_size (\<lambda>r. map_option f (snd r)) rows"
proof -
  have "List.map_filter (\<lambda>r. map_option f (snd r)) (filter (\<lambda>r. snd r \<noteq> None) rows)
        = List.map_filter (\<lambda>r. map_option f (snd r)) rows"
    by (rule map_filter_matched) simp
  then show ?thesis unfolding groupby_size_def by (simp only:)
qed

lemma nunique_matched:
  "nunique (\<lambda>r. map_option f (snd r)) (filter (\<lambda>r. snd r \<noteq> None) rows)
     = nunique (\<lambda>r. map_option f (snd r)) rows"
proof -
  have "List.map_filter (\<lambda>r. map_option f (snd r)) (filter (\<lambda>r. snd r \<noteq> None) rows)
        = List.map_filter (\<lambda>r. map_option f (snd r)) rows"
    by (rule map_filter_matched) simp
  then show ?thesis unfolding nunique_def by (simp only:)
qed

lemma sorts_descending_Nil: "sorts_descending srt \<Longrightarrow> srt [] = []"
  using sorts_descending_length[of srt "[]"] by simp

lemma analyze_fields:
  assumes "sorts_descending srt" "analyze_risk_patterns srt self rows = Inr ra"
  shows "total_incidents ra = length rows"
    and "unique_assets ra = nunique (\<lambda>r. map_option code (snd r)) rows"
    and "by_asset_type ra = groupby_size (\<lambda>r. map_option type (snd r)) rows"
    and "by_criticality ra = groupby_size (\<lambda>r. map_option criticality (snd r)) rows"
    and "by_damage_severity ra = groupby_size (\<lambda>r. Some (damage_severity (fst r))) rows"
    and "collect (map (high_risk_entry self) (take 10 (srt (asset_frequency rows)))) = Inr (high_risk_assets ra)"
    and "rows \<noteq> [] \<Longrightarrow> total_estimated_cost ra = Some (sum_list (map (\<lambda>r. repair_cost_usd (fst r)) rows))"
    and "rows \<noteq> [] \<Longrightarrow> total_downtime_hours ra = Some (sum_list (map (\<lambda>r. downtime_hours (fst r)) rows))"
  using assms(2) sorts_descending_Nil[OF assms(1)]
  by (auto simp: analyze_risk_patterns_def Let_def nunique_def groupby_size_def asset_frequency_def
      List.map_filter_def split: if_splits sum.splits)

lemma analyze_total:
  assumes "sorts_descending srt"
      and "\<forall>r\<in>set rows. \<forall>a. snd r = Some a \<longrightarrow> code a \<in> code ` set (assets self)"
  shows "\<exists>ra. analyze_risk_patterns srt self rows = Inr ra"
proof -
  have "\<exists>h. high_risk_entry self item = Inr h"
    if "item \<in> set (take 10 (srt (asset_frequency rows)))" for item
  proof -
    from that have "item \<in> set (asset_frequency rows)"
      using sorts_descending_set[OF assms(1)] by (auto dest: in_set_takeD)
    then have "fst item \<in> set (List.map_filter (\<lambda>r. map_option code (snd r)) rows)"
      unfolding asset_frequency_def set_groupby_size by auto
    then obtain r a where "r \<in> set rows" "snd r = Some a" "code a = fst item"
      unfolding set_map_filter_key by auto
    with assms(2) have "fst item \<in> code ` set (assets self)" by metis
    then have "filter (\<lambda>a. code a = fst item) (assets self) \<noteq> []"
      by (auto simp: filter_empty_conv)
    then show ?thesis
      by (auto simp: high_risk_entry_def split: list.splits)
  qed
  then have "\<exists>hs. collect (map (high_risk_entry self) (take 10 (srt (asset_frequency rows)))) = Inr hs"
    by (intro collect_total) blast
  then show ?thesis
    by (auto simp: analyze_risk_patterns_def Let_def)
qed

lemma get_affected_assets_codes:
  "\<forall>r\<in>set (get_affected_assets self event_ids). \<forall>a. snd r = Some a \<longrightarrow> code a \<in> code ` set (assets self)"
  unfolding get_affected_assets_def Let_def
  by (metis merge_left_Some imageI prod.collapse)

lemma sum_list_matched:
  "sum_list (map f rows) = sum_list (map f (filter (\<lambda>r. snd r \<noteq> None) rows)) + sum_list (map f (filter (\<lambda>r. snd r = None) rows))"
  for f :: "affected_row \<Rightarrow> real"
  by (induction rows) auto

text \<open>
  With a stable descending sort the entries of equal count stay in the order of the
  frequency table, that is in ascending order of their code.
\<close>

lemma insort_key_ties:
  fixes ys :: "(string \<times> nat) list"
  assumes "\<forall>y\<in>set ys. fst x \<le> fst y"
      and "sorted_wrt (\<lambda>p q. snd p = snd q \<longrightarrow> fst p \<le> fst q) ys"
  shows "sorted_wrt (\<lambda>p q. snd p = snd q \<longrightarrow> fst p \<le> fst q) (insort_key (\<lambda>p. - int (snd p)) x ys)"
  using assms by (induction ys) (auto simp: set_insort_key)

lemma stable_descending_sort_ties:
  fixes xs :: "(string \<times> nat) list"
  assumes "sorted (map fst xs)"
  shows "sorted_wrt (\<lambda>p q. snd p = snd q \<longrightarrow> fst p \<le> fst q) (stable_descending_sort xs)"
  using assms
proof (induction xs)
  case Nil
  then show ?case by (simp add: stable_descending_sort_def)
next
  case (Cons x xs)
  then have "sorted_wrt (\<lambda>p q. snd p = snd q \<longrightarrow> fst p \<le> fst q) (stable_descending_sort xs)"
    by simp
  moreover from Cons.prems have "\<forall>y\<in>set (stable_descending_sort xs). fst x \<le> fst y"
    by (auto simp: stable_descending_sort_def)
  ultimately show ?case
    using insort_key_ties[of "stable_descending_sort xs" x]
    by (simp add: stable_descending_sort_def)
qed

lemma stable_sort_ties_by_code:
  assumes "analyze_risk_patterns stable_descending_sort self rows = Inr ra"
  shows "ties_by_code_ascending (high_risk_assets ra)"
proof -
  let ?top = "take 10 (stable_descending_sort (asset_frequency rows))"
  let ?R = "\<lambda>p q :: string \<times> nat. snd p = snd q \<longrightarrow> fst p \<le> fst q"
  from analyze_high_risk[OF assms] consider
    (some) "map hr_code (high_risk_assets ra) = map fst ?top"
           "map incident_count (high_risk_assets ra) = map snd ?top"
    | (none) "high_risk_assets ra = []"
    by blast
  then show ?thesis
  proof cases
    case none
    then show ?thesis by (simp add: ties_by_code_ascending_def)
  next
    case some
    have "sorted_wrt ?R (stable_descending_sort (asset_frequency rows))"
      by (rule stable_descending_sort_ties) (simp add: asset_frequency_def sorted_groupby_size)
    then have top: "sorted_wrt ?R ?top"
      by (rule sorted_wrt_take)
    have len: "length (high_risk_assets ra) = length ?top"
      using some(1) by (metis length_map)
    have "hr_code (high_risk_assets ra ! i) = fst (?top ! i) \<and>
          incident_count (high_risk_assets ra ! i) = snd (?top ! i)"
      if "i < length ?top" for i
      using that len some by (metis nth_map)
    with top len show ?thesis
      unfolding ties_by_code_ascending_def sorted_wrt_iff_nth_less
      by auto
  qed
qed

subsection \<open>The scoring loop\<close>

lemma set_scored_assets:
  "set (scored_assets self ra) = {(c, a). a \<in> set (assets self) \<and> (type a, c) \<in> set (by_asset_type ra)}"
  by (auto simp: scored_assets_def)

lemma set_predict:
  "set (predict_at_risk_assets clock self ra) =
     {score_asset (clock n) (fst (scored_assets self ra ! n)) (snd (scored_assets self ra ! n)) | n.
        n < length (scored_assets self ra)}"
proof -
  let ?xs = "scored_assets self ra"
  have "set (enumerate 0 ?xs) = (\<lambda>n. (n, ?xs ! n)) ` {..<length ?xs}"
    by (auto simp: in_set_enumerate_eq image_iff)
  then have "set (predict_at_risk_assets clock self ra) =
      (\<lambda>(n, (c, a)). score_asset (clock n) c a) ` (\<lambda>n. (n, ?xs ! n)) ` {..<length ?xs}"
    by (simp add: predict_at_risk_assets_def)
  also have "\<dots> = {score_asset (clock n) (fst (?xs ! n)) (snd (?xs ! n)) | n. n < length ?xs}"
    by (auto simp: image_iff split_beta)
  finally show ?thesis .
qed

lemma score_asset_fields [simp]:
  "rr_code (score_asset t c a) = code a" "rr_type (score_asset t c a) = type a"
  "historical_incident_count (score_asset t c a) = c"
  by (simp_all add: score_asset_def Let_def)

lemma score_asset_days:
  "timedelta_days t1 (installation_date a) = timedelta_days t2 (installation_date a) \<Longrightarrow>
   score_asset t1 c a = score_asset t2 c a"
  by (simp add: score_asset_def)

lemma spec_scored: "scored_assets spec_analyzer spec_risk = [(1, spec_assets ! 0)]"
  by (simp add: scored_assets_def spec_analyzer_def spec_risk_def spec_assets_def)

lemma spec_predict_single:
  "predict_at_risk_assets clock spec_analyzer spec_risk = [score_asset (clock 0) 1 (spec_assets ! 0)]"
  by (simp add: predict_at_risk_assets_def spec_scored)

lemma criticality_weight_spec: "criticality_weight c = spec_criticality_weight c"
  by (simp add: criticality_weight_def spec_criticality_weight_def)

lemma round_half_even_near: "\<bar>x - of_int m\<bar> < 1 / 2 \<Longrightarrow> round_half_even x = m"
proof -
  assume a: "\<bar>x - of_int m\<bar> < 1 / 2"
  show ?thesis
  proof (cases "of_int m \<le> x")
    case True
    with a have "\<lfloor>x\<rfloor> = m" by (intro floor_unique) linarith+
    with a True show ?thesis by (simp add: round_half_even_def)
  next
    case False
    with a have f: "\<lfloor>x\<rfloor> = m - 1" by (intro floor_unique) (simp, linarith)+
    with a False have "1 / 2 < x - of_int \<lfloor>x\<rfloor>" by simp
    with f show ?thesis by (simp add: round_half_even_def)
  qed
qed



lemma score_asset_risk_score:
  "risk_score (score_asset t c a) =
     py_round (spec_risk_score (real c) (condition_score a)
                 (real_of_int (timedelta_days t (installation_date a)) / 365.25)
                 (spec_criticality_weight (criticality a))) 2"
  by (simp only: score_asset_def Let_def spec_risk_score_def criticality_weight_spec
      risk_result.select_convs)

lemma scored_asset_index:
  assumes "a \<in> set (assets self)" "(type a, c) \<in> set (by_asset_type ra)"
  shows "\<exists>n<length (scored_assets self ra). scored_assets self ra ! n = (c, a)"
proof -
  from assms have "(c, a) \<in> set (scored_assets self ra)" by (simp add: set_scored_assets)
  then show ?thesis by (auto simp: in_set_conv_nth)
qed

lemma score_20_years_arith:
  fixes x :: real
  assumes "7296 \<le> x" "x \<le> 7314"
  shows "\<bar>790 + x * 600 / 10957.5 - 1190\<bar> < 1 / 2"
proof -
  from assms have "x * 600 / 10957.5 < 400 + 1 / 2" "400 - 1 / 2 < x * 600 / 10957.5"
    by (simp_all add: field_simps)
  then show ?thesis
    unfolding abs_less_iff by linarith
qed

lemma score_20_years:
  assumes "7296 \<le> d" "d \<le> 7314"
  shows "py_round (spec_risk_score 1 3 (real_of_int d / 365.25) (spec_criticality_weight ''High'')) 2 = 11.9"
proof -
  from assms have d: "7296 \<le> real_of_int d" "real_of_int d \<le> 7314" by simp_all
  then have m: "min (real_of_int d / 365.25 / 30) 1.0 = real_of_int d / 10957.5"
    by (simp add: min_def)
  have "spec_risk_score 1 3 (real_of_int d / 365.25) (spec_criticality_weight ''High'') * 10 ^ 2
          = 790 + real_of_int d * 600 / 10957.5"
    unfolding spec_risk_score_def m by (simp add: spec_criticality_weight_def)
  moreover have "\<bar>790 + real_of_int d * 600 / 10957.5 - of_int 1190\<bar> < 1 / 2"
    using score_20_years_arith[OF d] by simp
  ultimately have "round_half_even (spec_risk_score 1 3 (real_of_int d / 365.25) (spec_criticality_weight ''High'') * 10 ^ 2) = 1190"
    by (simp only: round_half_even_near)
  then show ?thesis by (simp add: py_round_def)
qed

lemma score_7295_days:
  "py_round (spec_risk_score 1 3 (real_of_int 7295 / 365.25) (spec_criticality_weight ''High'')) 2 = 11.89"
proof -
  have "spec_risk_score 1 3 (real_of_int 7295 / 365.25) (spec_criticality_weight ''High'') * 10 ^ 2
          = 790 + 7295 * 600 / 10957.5"
    by (simp add: spec_risk_score_def spec_criticality_weight_def)
  moreover have "\<bar>790 + 7295 * 600 / 10957.5 - of_int 1189\<bar> < (1 / 2 :: real)"
    by simp
  ultimately have "round_half_even (spec_risk_score 1 3 (real_of_int 7295 / 365.25)
                     (spec_criticality_weight ''High'') * 10 ^ 2) = 1189"
    by (simp only: round_half_even_near)
  then show ?thesis by (simp add: py_round_def)
qed

lemma spec_pole_score:
  "risk_score (score_asset (days_after_epoch d 0) 1 (spec_assets ! 0)) =
     py_round (spec_risk_score 1 3 (real_of_int d / 365.25) (spec_criticality_weight ''High'')) 2"
  unfolding score_asset_risk_score
  by (simp add: spec_assets_def timedelta_days_def days_after_epoch_def)

lemma spec_predict_7295:
  "map risk_score (predict_at_risk_assets (days_after_epoch 7295) spec_analyzer spec_risk) = [11.89]"
proof -
  have "risk_score (score_asset (days_after_epoch 7295 0) 1 (spec_assets ! 0)) = 11.89"
    by (simp only: spec_pole_score score_7295_days)
  then show ?thesis by (simp only: spec_predict_single list.map)
qed

lemma spec_predict_7296:
  "map risk_score (predict_at_risk_assets (days_after_epoch 7296) spec_analyzer spec_risk) = [11.9]"
proof -
  have "py_round (spec_risk_score 1 3 (real_of_int 7296 / 365.25) (spec_criticality_weight ''High'')) 2 = 11.9"
    by (rule score_20_years) simp_all
  then have "risk_score (score_asset (days_after_epoch 7296 0) 1 (spec_assets ! 0)) = 11.9"
    by (simp only: spec_pole_score)
  then show ?thesis by (simp only: spec_predict_single list.map)
qed


lemma mset_filter_disj:
  "\<forall>x\<in>set xs. \<not> (P x \<and> Q x) \<Longrightarrow> mset (filter (\<lambda>x. P x \<or> Q x) xs) = mset (filter P xs) + mset (filter Q xs)"
  by (induction xs) auto

lemma mset_scored_assets:
  "distinct (map fst kvs) \<Longrightarrow>
   mset (map snd (concat (map (\<lambda>(t, c). map (\<lambda>a. (c, a)) (filter (\<lambda>a. type a = t) as)) kvs)))
     = mset (filter (\<lambda>a. type a \<in> fst ` set kvs) as)"
proof (induction kvs)
  case Nil
  then show ?case by simp
next
  case (Cons kv kvs)
  obtain t c where kv: "kv = (t, c)" by (cases kv)
  from Cons.prems kv have "\<forall>a\<in>set as. \<not> (type a = t \<and> type a \<in> fst ` set kvs)"
    by auto
  from mset_filter_disj[OF this] Cons kv show ?case
    by (simp add: comp_def)
qed

lemma map_rr_code_enumerate:
  "map rr_code (map (\<lambda>(n, (c, a)). score_asset (clock n) c a) (enumerate k xs)) = map (\<lambda>p. code (snd p)) xs"
  by (induction xs arbitrary: k) (auto simp: split_beta)

lemma map_rr_code_predict:
  "mset (map rr_code (predict_at_risk_assets clock self ra)) = mset (map (\<lambda>p. code (snd p)) (scored_assets self ra))"
proof -
  have "mset (map rr_code (predict_at_risk_assets clock self ra))
        = mset (map rr_code (map (\<lambda>(n, (c, a)). score_asset (clock n) c a) (enumerate 0 (scored_assets self ra))))"
    by (simp add: predict_at_risk_assets_def del: map_map)
  then show ?thesis by (simp only: map_rr_code_enumerate)
qed


lemma orphan_rows:
  "get_affected_assets orphan_analyzer [1] =
     [(incidents orphan_analyzer ! 0, Some (spec_assets ! 0)), (orphan_incident, None)]"
  by (simp add: get_affected_assets_def merge_left_def orphan_analyzer_def orphan_incident_def
      spec_assets_def)

lemma orphan_analysis:
  "analyze_risk_patterns stable_descending_sort orphan_analyzer (get_affected_assets orphan_analyzer [1]) =
     Inr \<lparr>total_incidents = 2, unique_assets = 1, by_asset_type = [(''Pole'', 1)],
          by_criticality = [(''High'', 1)], by_damage_severity = [(''Minor'', 1), (''Severe'', 1)],
          high_risk_assets = [\<lparr>hr_code = ''A1'', hr_name = ''Pole 1'', hr_type = ''Pole'',
                                incident_count = 1, hr_criticality = ''High''\<rparr>],
          total_estimated_cost = Some 1250, total_downtime_hours = Some 6\<rparr>"
  unfolding orphan_rows
  by (simp add: analyze_risk_patterns_def orphan_analyzer_def orphan_incident_def spec_assets_def
      groupby_size_def List.map_filter_def nunique_def asset_frequency_def high_risk_entry_def
      stable_descending_sort_def)

subsection \<open>The degenerate aggregation\<close>

text \<open>
  Claim C5. When the list of event ids is empty or no incident has one of its ids, the join
  followed by the aggregation raises nothing and returns the aggregate with 0 incidents,
  0 distinct assets, the three groupings empty and no frequently affected asset.
\<close>

theorem no_match_zero_aggregate:
  assumes "set event_ids \<inter> incident_event_id ` set (incidents self) = {}"
  shows "\<exists>ra. analyze_risk_patterns sort_values_desc self (get_affected_assets self event_ids) = Inr ra \<and>
           total_incidents ra = 0 \<and> unique_assets ra = 0 \<and> by_asset_type ra = [] \<and>
           by_criticality ra = [] \<and> by_damage_severity ra = [] \<and> high_risk_assets ra = []"
  by (simp add: get_affected_assets_no_match[OF assms] analyze_risk_patterns_def)

theorem no_match_zero_aggregate_witness:
  "set [9] \<inter> incident_event_id ` set (incidents spec_analyzer) = {} \<and>
   (\<exists>ra. analyze_risk_patterns stable_descending_sort spec_analyzer
            (get_affected_assets spec_analyzer [9]) = Inr ra \<and>
      total_incidents ra = 0 \<and> unique_assets ra = 0 \<and> by_asset_type ra = [] \<and>
      by_criticality ra = [] \<and> by_damage_severity ra = [] \<and> high_risk_assets ra = []) \<and>
   (\<exists>ra. analyze_risk_patterns stable_descending_sort spec_analyzer
            (get_affected_assets spec_analyzer []) = Inr ra \<and>
      total_incidents ra = 0 \<and> unique_assets ra = 0 \<and> by_asset_type ra = [] \<and>
      by_criticality ra = [] \<and> by_damage_severity ra = [] \<and> high_risk_assets ra = [])"
proof -
  have a: "set [9] \<inter> incident_event_id ` set (incidents spec_analyzer) = {}"
    by (simp add: spec_analyzer_def)
  have b: "set [] \<inter> incident_event_id ` set (incidents spec_analyzer) = {}"
    by simp
  show ?thesis
    using a no_match_zero_aggregate[OF a, of stable_descending_sort]
      no_match_zero_aggregate[OF b, of stable_descending_sort]
    by blast
qed

subsection \<open>The ranking of the frequently affected assets\<close>




subsection \<open>Incidents on unknown assets\<close>

text \<open>
  Claim C10. An incident of a selected event whose asset code is not in the registry stays
  in the joined table, with null asset columns. The aggregation counts it in the total
  (the total of the matched rows plus the number of null-filled rows), in the grouping by
  damage severity, and in the summed repair cost and downtime. The groupings by asset type
  and by criticality, the number of distinct assets and the list of frequently affected
  assets are those of the matched rows alone, and the unknown code is not in that list.
\<close>

theorem unmatched_incident_counted_not_grouped:
  assumes "sorts_descending sort_values_desc"
      and "i \<in> set (incidents self)"
      and "incident_event_id i \<in> set event_ids"
      and "asset_code i \<notin> code ` set (assets self)"
  shows "(i, None) \<in> set (get_affected_assets self event_ids) \<and>
     (\<exists>ra ra'.
        analyze_risk_patterns sort_values_desc self (get_affected_assets self event_ids) = Inr ra \<and>
        analyze_risk_patterns sort_values_desc self
          (filter (\<lambda>r. snd r \<noteq> None) (get_affected_assets self event_ids)) = Inr ra' \<and>
        total_incidents ra = length (get_affected_assets self event_ids) \<and>
        total_incidents ra =
          total_incidents ra' + length (filter (\<lambda>r. snd r = None) (get_affected_assets self event_ids)) \<and>
        (damage_severity i,
         length (filter (\<lambda>r. damage_severity (fst r) = damage_severity i)
                   (get_affected_assets self event_ids)))
          \<in> set (by_damage_severity ra) \<and>
        total_estimated_cost ra =
          Some (sum_list (map (\<lambda>r. repair_cost_usd (fst r))
                           (filter (\<lambda>r. snd r \<noteq> None) (get_affected_assets self event_ids)))
                + sum_list (map (\<lambda>r. repair_cost_usd (fst r))
                           (filter (\<lambda>r. snd r = None) (get_affected_assets self event_ids)))) \<and>
        total_downtime_hours ra =
          Some (sum_list (map (\<lambda>r. downtime_hours (fst r))
                           (filter (\<lambda>r. snd r \<noteq> None) (get_affected_assets self event_ids)))
                + sum_list (map (\<lambda>r. downtime_hours (fst r))
                           (filter (\<lambda>r. snd r = None) (get_affected_assets self event_ids)))) \<and>
        by_asset_type ra = by_asset_type ra' \<and>
        by_criticality ra = by_criticality ra' \<and>
        unique_assets ra = unique_assets ra' \<and>
        high_risk_assets ra = high_risk_assets ra' \<and>
        asset_code i \<notin> hr_code ` set (high_risk_assets ra))"
proof -
  let ?rows = "get_affected_assets self event_ids"
  let ?matched = "filter (\<lambda>r. snd r \<noteq> None) ?rows"
  have row: "(i, None) \<in> set ?rows"
    using assms(2-4) by (simp add: get_affected_assets_def merge_left_None)
  then have ne: "?rows \<noteq> []" by auto
  from analyze_total[OF assms(1) get_affected_assets_codes] obtain ra where
    ra: "analyze_risk_patterns sort_values_desc self ?rows = Inr ra" by blast
  have "\<forall>r\<in>set ?matched. \<forall>a. snd r = Some a \<longrightarrow> code a \<in> code ` set (assets self)"
    using get_affected_assets_codes[of self event_ids] by auto
  from analyze_total[OF assms(1) this] obtain ra' where
    ra': "analyze_risk_patterns sort_values_desc self ?matched = Inr ra'" by blast
  note f = analyze_fields[OF assms(1) ra]
  note f' = analyze_fields[OF assms(1) ra']
  have fr: "asset_frequency ?matched = asset_frequency ?rows"
    by (simp add: asset_frequency_def groupby_size_matched del: not_None_eq)
  have hr: "high_risk_assets ra = high_risk_assets ra'"
    using f(6) f'(6) unfolding fr by simp
  have len: "length ?rows = length ?matched + length (filter (\<lambda>r. snd r = None) ?rows)"
    using sum_length_filter_compl[of "\<lambda>r. snd r \<noteq> None" ?rows] by simp
  have sev: "(damage_severity i, length (filter (\<lambda>r. damage_severity (fst r) = damage_severity i) ?rows))
               \<in> set (by_damage_severity ra)"
  proof -
    have "damage_severity i \<in> set (List.map_filter (\<lambda>r. Some (damage_severity (fst r))) ?rows)"
      unfolding set_map_filter_key using row by force
    then show ?thesis
      unfolding f(5) set_groupby_size count_list_map_filter by (auto simp: image_iff)
  qed
  have notin: "asset_code i \<notin> hr_code ` set (high_risk_assets ra)"
  proof
    assume "asset_code i \<in> hr_code ` set (high_risk_assets ra)"
    then have "asset_code i \<in> set (map hr_code (high_risk_assets ra))" by simp
    then have "asset_code i \<in> set (map fst (take 10 (sort_values_desc (asset_frequency ?rows))))"
      using high_risk_entries(1)[OF f(6)] by simp
    then have "asset_code i \<in> fst ` set (asset_frequency ?rows)"
      using sorts_descending_set[OF assms(1)] by (auto dest: in_set_takeD)
    then have "asset_code i \<in> set (List.map_filter (\<lambda>r. map_option code (snd r)) ?rows)"
      unfolding asset_frequency_def set_groupby_size by auto
    then obtain r a where "r \<in> set ?rows" "snd r = Some a" "code a = asset_code i"
      unfolding set_map_filter_key by auto
    with get_affected_assets_codes[of self event_ids] assms(4) show False by metis
  qed
  show ?thesis
    using row ra ra' f(1) f'(1) len sev hr notin
      f(7)[OF ne] f(8)[OF ne]
      sum_list_matched[of "\<lambda>r. repair_cost_usd (fst r)" ?rows]
      sum_list_matched[of "\<lambda>r. downtime_hours (fst r)" ?rows]
      f(2,3,4) f'(2,3,4)
    by (simp add: groupby_size_matched nunique_matched del: not_None_eq)
qed

theorem unmatched_incident_counted_not_grouped_witness:
  "sorts_descending stable_descending_sort \<and>
   orphan_incident \<in> set (incidents orphan_analyzer) \<and>
   incident_event_id orphan_incident \<in> set [1] \<and>
   asset_code orphan_incident \<notin> code ` set (assets orphan_analyzer) \<and>
   (orphan_incident, None) \<in> set (get_affected_assets orphan_analyzer [1]) \<and>
   (\<exists>ra. analyze_risk_patterns stable_descending_sort orphan_analyzer
            (get_affected_assets orphan_analyzer [1]) = Inr ra \<and>
      total_incidents ra = 2 \<and> unique_assets ra = 1 \<and>
      by_asset_type ra = [(''Pole'', 1)] \<and> by_criticality ra = [(''High'', 1)] \<and>
      by_damage_severity ra = [(''Minor'', 1), (''Severe'', 1)] \<and>
      map hr_code (high_risk_assets ra) = [''A1''] \<and>
      total_estimated_cost ra = Some 1250 \<and> total_downtime_hours ra = Some 6)"
proof -
  have a: "orphan_incident \<in> set (incidents orphan_analyzer)"
    by (simp add: orphan_analyzer_def)
  have b: "incident_event_id orphan_incident \<in> set [1]"
    by (simp add: orphan_incident_def)
  have c: "asset_code orphan_incident \<notin> code ` set (assets orphan_analyzer)"
    by (simp add: orphan_analyzer_def orphan_incident_def spec_assets_def)
  from unmatched_incident_counted_not_grouped[OF sorts_descending_stable_descending_sort a b c]
  have "(orphan_incident, None) \<in> set (get_affected_assets orphan_analyzer [1])"
    by blast
  then show ?thesis
    using sorts_descending_stable_descending_sort a b c orphan_analysis by simp
qed

subsection \<open>The risk score\<close>



subsection \<open>Which assets are scored\<close>

text \<open>
  Claim C8. Every asset of the registry whose type is a key of the by-asset-type breakdown
  has a result in the output; no result has the type of an asset whose type is not a key;
  every result is the score of an asset of the registry whose type is a key; and, the keys
  of a dict being distinct, the codes of the results are the codes of the assets whose type
  is a key, each as often as it occurs in the registry.
\<close>

theorem predict_scores_present_types:
  "(\<forall>a\<in>set (assets self). type a \<in> fst ` set (by_asset_type ra) \<longrightarrow>
      (\<exists>r\<in>set (predict_at_risk_assets clock self ra). rr_code r = code a \<and> rr_type r = type a)) \<and>
   (\<forall>a\<in>set (assets self). type a \<notin> fst ` set (by_asset_type ra) \<longrightarrow>
      (\<forall>r\<in>set (predict_at_risk_assets clock self ra). rr_type r \<noteq> type a)) \<and>
   (\<forall>r\<in>set (predict_at_risk_assets clock self ra).
      \<exists>a\<in>set (assets self). \<exists>c n. (type a, c) \<in> set (by_asset_type ra) \<and> r = score_asset (clock n) c a) \<and>
   (distinct (map fst (by_asset_type ra)) \<longrightarrow>
      mset (map rr_code (predict_at_risk_assets clock self ra))
        = mset (map code (filter (\<lambda>a. type a \<in> fst ` set (by_asset_type ra)) (assets self))))"
proof -
  let ?out = "predict_at_risk_assets clock self ra"
  have out: "\<exists>a\<in>set (assets self). \<exists>c n. (type a, c) \<in> set (by_asset_type ra) \<and> r = score_asset (clock n) c a"
    if "r \<in> set ?out" for r
  proof -
    from that obtain n where n: "n < length (scored_assets self ra)"
      and r: "r = score_asset (clock n) (fst (scored_assets self ra ! n)) (snd (scored_assets self ra ! n))"
      unfolding set_predict by blast
    from n have "scored_assets self ra ! n \<in> set (scored_assets self ra)" by simp
    then have "snd (scored_assets self ra ! n) \<in> set (assets self)"
      "(type (snd (scored_assets self ra ! n)), fst (scored_assets self ra ! n)) \<in> set (by_asset_type ra)"
      unfolding set_scored_assets by (auto simp: split_beta)
    with r show ?thesis by blast
  qed
  have present: "\<exists>r\<in>set ?out. rr_code r = code a \<and> rr_type r = type a"
    if "a \<in> set (assets self)" "type a \<in> fst ` set (by_asset_type ra)" for a
  proof -
    from that(2) obtain c where c: "(type a, c) \<in> set (by_asset_type ra)" by force
    from scored_asset_index[OF that(1) c] obtain n where
      "n < length (scored_assets self ra)" "scored_assets self ra ! n = (c, a)" by blast
    then have "score_asset (clock n) c a \<in> set ?out"
      unfolding set_predict by force
    then show ?thesis by (intro bexI[of _ "score_asset (clock n) c a"]) simp_all
  qed
  have absent: "rr_type r \<noteq> type a"
    if "type a \<notin> fst ` set (by_asset_type ra)" "r \<in> set ?out" for a :: asset and r
  proof -
    from out[OF that(2)] obtain b c n where "(type b, c) \<in> set (by_asset_type ra)" "r = score_asset (clock n) c b"
      by blast
    with that(1) show ?thesis by force
  qed
  have count: "mset (map rr_code ?out) = mset (map code (filter (\<lambda>a. type a \<in> fst ` set (by_asset_type ra)) (assets self)))"
    if "distinct (map fst (by_asset_type ra))"
  proof -
    have "mset (map (\<lambda>p. code (snd p)) (scored_assets self ra)) = image_mset code (mset (map snd (scored_assets self ra)))"
      by (simp add: multiset.map_comp comp_def)
    also have "\<dots> = image_mset code (mset (filter (\<lambda>a. type a \<in> fst ` set (by_asset_type ra)) (assets self)))"
      unfolding scored_assets_def by (simp only: mset_scored_assets[OF that])
    finally show ?thesis unfolding map_rr_code_predict by simp
  qed
  from out present absent count show ?thesis by blast
qed

theorem predict_scores_present_types_witness:
  "distinct (map fst (by_asset_type spec_risk)) \<and>
   map code (assets spec_analyzer) = [''A1'', ''B7''] \<and>
   map type (assets spec_analyzer) = [''Pole'', ''Rail''] \<and>
   map fst (by_asset_type spec_risk) = [''Pole''] \<and>
   mset (map rr_code (predict_at_risk_assets (days_after_epoch 7305) spec_analyzer spec_risk))
     = {#''A1''#}"
proof -
  have a: "distinct (map fst (by_asset_type spec_risk))"
    by (simp add: spec_risk_def)
  have b: "map code (filter (\<lambda>a. type a \<in> fst ` set (by_asset_type spec_risk)) (assets spec_analyzer))
             = [''A1'']"
    by (simp add: spec_risk_def spec_analyzer_def spec_assets_def)
  from predict_scores_present_types[of spec_analyzer spec_risk "days_after_epoch 7305"] a
  have "mset (map rr_code (predict_at_risk_assets (days_after_epoch 7305) spec_analyzer spec_risk))
          = mset (map code (filter (\<lambda>a. type a \<in> fst ` set (by_asset_type spec_risk))
                             (assets spec_analyzer)))"
    by blast
  then show ?thesis
    unfolding b using a by (simp add: spec_risk_def spec_analyzer_def spec_assets_def)
qed

subsection \<open>Dependence on the date of the call\<close>

text \<open>
  Claim C3, as the code has it. The output depends on the clock only through the number of
  whole days between each asset's installation date and the reading: two calls on the same
  analysis and registry, whose clock readings give every asset the same number of whole
  days, return the same list.
\<close>

theorem predict_same_day_deterministic:
  assumes "\<forall>n. \<forall>a\<in>set (assets self).
             timedelta_days (clock1 n) (installation_date a) = timedelta_days (clock2 n) (installation_date a)"
  shows "predict_at_risk_assets clock1 self ra = predict_at_risk_assets clock2 self ra"
proof -
  have "map (\<lambda>(n, (c, a)). score_asset (clock1 n) c a) (enumerate 0 (scored_assets self ra))
      = map (\<lambda>(n, (c, a)). score_asset (clock2 n) c a) (enumerate 0 (scored_assets self ra))"
  proof (rule map_cong[OF refl])
    fix x assume "x \<in> set (enumerate 0 (scored_assets self ra))"
    then have "fst x < length (scored_assets self ra)" "snd x = scored_assets self ra ! fst x"
      by (simp_all add: in_set_enumerate_eq)
    then have "snd x \<in> set (scored_assets self ra)"
      by simp
    moreover obtain n c a where x: "x = (n, (c, a))"
      by (metis prod_cases3)
    ultimately have "(c, a) \<in> set (scored_assets self ra)"
      by simp
    then have "a \<in> set (assets self)" by (simp add: set_scored_assets)
    with assms have "score_asset (clock1 n) c a = score_asset (clock2 n) c a"
      by (intro score_asset_days) blast
    with x show "(case x of (n, (c, a)) \<Rightarrow> score_asset (clock1 n) c a)
                     = (case x of (n, (c, a)) \<Rightarrow> score_asset (clock2 n) c a)"
      by simp
  qed
  then show ?thesis by (simp only: predict_at_risk_assets_def Let_def)
qed

theorem predict_same_day_deterministic_witness:
  "timedelta_days (days_after_epoch 7305 0) 0 = timedelta_days (hour_later (days_after_epoch 7305) 0) 0 \<and>
   predict_at_risk_assets (days_after_epoch 7305) spec_analyzer spec_risk
     = predict_at_risk_assets (hour_later (days_after_epoch 7305)) spec_analyzer spec_risk"
proof -
  have a: "\<forall>n. \<forall>a\<in>set (assets spec_analyzer).
             timedelta_days (days_after_epoch 7305 n) (installation_date a)
               = timedelta_days (hour_later (days_after_epoch 7305) n) (installation_date a)"
    by (simp add: spec_analyzer_def spec_assets_def timedelta_days_def days_after_epoch_def
        hour_later_def)
  have "timedelta_days (days_after_epoch 7305 0) 0 = timedelta_days (hour_later (days_after_epoch 7305) 0) 0"
    by (simp add: timedelta_days_def days_after_epoch_def hour_later_def)
  with predict_same_day_deterministic[OF a, of spec_risk] show ?thesis by blast
qed

text \<open>
  Claim C3 as stated fails: with the same analysis and registry, the pole installed at the
  epoch scores 11.89 when the clock reads 7295 days after the epoch and 11.9 when it reads
  7296 days after it, a day later.
\<close>

theorem predict_time_counterexample:
  "map risk_score (predict_at_risk_assets (days_after_epoch 7295) spec_analyzer spec_risk) = [11.89] \<and>
   map risk_score (predict_at_risk_assets (days_after_epoch 7296) spec_analyzer spec_risk) = [11.9] \<and>
   predict_at_risk_assets (days_after_epoch 7295) spec_analyzer spec_risk
     \<noteq> predict_at_risk_assets (days_after_epoch 7296) spec_analyzer spec_risk"
proof -
  have "map risk_score (predict_at_risk_assets (days_after_epoch 7295) spec_analyzer spec_risk)
          \<noteq> map risk_score (predict_at_risk_assets (days_after_epoch 7296) spec_analyzer spec_risk)"
    unfolding spec_predict_7295 spec_predict_7296 by simp
  then have "predict_at_risk_assets (days_after_epoch 7295) spec_analyzer spec_risk
     \<noteq> predict_at_risk_assets (days_after_epoch 7296) spec_analyzer spec_risk"
    by metis
  then show ?thesis
    using spec_predict_7295 spec_predict_7296 by simp
qed

end
